theory Spec2Isabelle
  imports Main
begin

section \<open>Python values, XML elements, exceptions\<close>

text \<open>
  The client in \<^verbatim>\<open>src/huaweisms.py\<close> moves three kinds of data around: the
  values that \<^verbatim>\<open>yaml.load\<close> and the keyword arguments deliver, the
  \<^verbatim>\<open>xml.etree.ElementTree\<close> elements that \<^verbatim>\<open>dict_to_xml\<close> builds
  and \<^verbatim>\<open>etree_to_dict\<close> reads, and the exceptions that end a call.

  A Python value is \<^verbatim>\<open>None\<close>, a bool, an int, a str, a list or a dict. The
  keys of a dict are strings here: YAML section names, keyword-argument names and XML tags
  all are, and values with other keys lie outside the model. A dict is an association list in
  insertion order; the operations below keep its keys pairwise distinct, as Python does.
  A string is a list of 8-bit characters, read as code points below 256.

  Dicts and keyword arguments iterate in insertion order, as they do from Python 3.7 on;
  floats and other YAML scalars are left out.

  Of an element only the tag, the text and the children are kept: the code never reads
  attributes or tails. A text of \<open>None\<close> is Python's \<^verbatim>\<open>elem.text is None\<close>.

  \<^verbatim>\<open>src/huawei-sms.py\<close> is an older copy of the same client. Its
  \<^verbatim>\<open>dict_to_xml\<close> and \<^verbatim>\<open>make_request\<close> are the same text; its
  \<^verbatim>\<open>etree_to_dict\<close> is a different function and is modelled beside the other.
\<close>

datatype pyval =
    PNone
  | PBool bool
  | PInt int
  | PStr string
  | PList "pyval list"
  | PDict "(string \<times> pyval) list"

type_synonym pydict = "(string \<times> pyval) list"

datatype element =
  Element (etag: string) (etext: "string option") (getchildren: "element list")

datatype error =
    APIError
  | HTTPStatus
  | KeyError
  | TypeError
  | ValueError
  | AttributeError
  | ParseError
  | ConnectionError

subsection \<open>Dictionary operations\<close>

text \<open>\<^verbatim>\<open>d[k] = v\<close>: an existing key keeps its place, a new key goes to the end.\<close>

fun setitem :: "pydict \<Rightarrow> string \<Rightarrow> pyval \<Rightarrow> pydict" where
  "setitem [] k v = [(k, v)]"
| "setitem ((k', v') # kvs) k v =
     (if k' = k then (k, v) # kvs else (k', v') # setitem kvs k v)"

text \<open>\<^verbatim>\<open>k in d\<close>\<close>

definition contains :: "pydict \<Rightarrow> string \<Rightarrow> bool" where
  "contains d k = (k \<in> set (map fst d))"

text \<open>\<^verbatim>\<open>d.update(other)\<close>\<close>

definition update :: "pydict \<Rightarrow> pydict \<Rightarrow> pydict" where
  "update d other = foldl (\<lambda>acc kv. setitem acc (fst kv) (snd kv)) d other"

text \<open>\<^verbatim>\<open>v[k]\<close> for a string \<open>k\<close>: only a dict can be subscripted by a string.\<close>

fun getitem :: "pyval \<Rightarrow> string \<Rightarrow> error + pyval" where
  "getitem (PDict d) k = (case map_of d k of None \<Rightarrow> Inl KeyError | Some v \<Rightarrow> Inr v)"
| "getitem _ k = Inl TypeError"

text \<open>\<^verbatim>\<open>v.get(k)\<close>: only a dict has the method.\<close>

fun get :: "pyval \<Rightarrow> string \<Rightarrow> error + pyval" where
  "get (PDict d) k = (case map_of d k of None \<Rightarrow> Inr PNone | Some v \<Rightarrow> Inr v)"
| "get _ k = Inl AttributeError"

text \<open>\<^verbatim>\<open>s + v\<close> for a string \<open>s\<close>\<close>

fun str_concat :: "string \<Rightarrow> pyval \<Rightarrow> error + string" where
  "str_concat s (PStr t) = Inr (s @ t)"
| "str_concat s _ = Inl TypeError"

text \<open>Truth value of an object in an \<^verbatim>\<open>if\<close>.\<close>

fun truthy :: "pyval \<Rightarrow> bool" where
  "truthy PNone = False"
| "truthy (PBool b) = b"
| "truthy (PInt i) = (i \<noteq> 0)"
| "truthy (PStr s) = (s \<noteq> [])"
| "truthy (PList xs) = (xs \<noteq> [])"
| "truthy (PDict d) = (d \<noteq> [])"

subsection \<open>\<^verbatim>\<open>str\<close> and \<^verbatim>\<open>repr\<close>\<close>

fun digits :: "nat \<Rightarrow> string" where
  "digits n = (if n < 10 then [char_of (48 + n)]
               else digits (n div 10) @ [char_of (48 + n mod 10)])"

definition int_str :: "int \<Rightarrow> string" where
  "int_str i = (if i < 0 then CHR ''-'' # digits (nat (- i)) else digits (nat i))"

definition hexdigit :: "nat \<Rightarrow> char" where
  "hexdigit n = (if n < 10 then char_of (48 + n) else char_of (87 + n))"

definition squote :: char where "squote = CHR 0x27"
definition dquote :: char where "dquote = CHR 0x22"
definition newline :: char where "newline = CHR 0x0A"

text \<open>One character of \<^verbatim>\<open>repr(s)\<close>, for the quote \<open>q\<close> chosen for the string.\<close>

definition repr_char :: "char \<Rightarrow> char \<Rightarrow> string" where
  "repr_char q c =
     (let n = (of_char c :: nat) in
      if c = q \<or> c = CHR 0x5C then [CHR 0x5C, c]
      else if n = 9 then [CHR 0x5C, CHR ''t'']
      else if n = 10 then [CHR 0x5C, CHR ''n'']
      else if n = 13 then [CHR 0x5C, CHR ''r'']
      else if n < 32 \<or> n = 127 \<or> (128 \<le> n \<and> n \<le> 160) \<or> n = 173
        then [CHR 0x5C, CHR ''x'', hexdigit (n div 16), hexdigit (n mod 16)]
      else [c])"

definition repr_str :: "string \<Rightarrow> string" where
  "repr_str s =
     (let q = (if squote \<in> set s \<and> dquote \<notin> set s then dquote else squote)
      in q # concat (map (repr_char q) s) @ [q])"

fun join :: "string \<Rightarrow> string list \<Rightarrow> string" where
  "join sep [] = []"
| "join sep [x] = x"
| "join sep (x # y # ys) = x @ sep @ join sep (y # ys)"

fun repr :: "pyval \<Rightarrow> string" where
  "repr PNone = ''None''"
| "repr (PBool b) = (if b then ''True'' else ''False'')"
| "repr (PInt i) = int_str i"
| "repr (PStr s) = repr_str s"
| "repr (PList xs) = ''['' @ join '', '' (map repr xs) @ '']''"
| "repr (PDict kvs) =
     ''{'' @ join '', '' (map (\<lambda>(k, v). repr_str k @ '': '' @ repr v) kvs) @ ''}''"

fun str :: "pyval \<Rightarrow> string" where
  "str (PStr s) = s"
| "str v = repr v"

section \<open>The codec\<close>

text \<open>
  \<^verbatim>\<open>dict_to_xml(tag, d)\<close>: one child per item of \<open>d\<close>, in the order of
  \<^verbatim>\<open>d.items()\<close>. A value whose type is \<^verbatim>\<open>dict\<close> is encoded recursively
  under its key; any other value, a list included, becomes one leaf whose text is
  \<^verbatim>\<open>str(value)\<close>. \<^verbatim>\<open>ET.Element(tag)\<close> has no text.
\<close>

fun dict_to_xml :: "string \<Rightarrow> pydict \<Rightarrow> element" where
  "dict_to_xml tag d = Element tag None
     (map (\<lambda>(key, val). case val of
              PDict sub \<Rightarrow> dict_to_xml key sub
            | _ \<Rightarrow> Element key (Some (str val)) []) d)"

text \<open>
  \<^verbatim>\<open>etree_to_dict\<close> of \<^verbatim>\<open>huaweisms.py\<close>. \<open>internal_iter tree accum\<close>
  stores the value of \<open>tree\<close> under its tag in \<open>accum\<close>. For an element with
  children the value is a dict filled child by child: the first child of a tag is stored
  as it is (\<^verbatim>\<open>update(result)\<close>); a later child of the same tag turns the entry
  into a list, unless it already is one, and appends its own value
  (\<^verbatim>\<open>result[each.tag]\<close>). For a leaf the value is \<^verbatim>\<open>tree.text\<close>, which
  is \<^verbatim>\<open>None\<close> when the element has no text.
\<close>

definition text_value :: "string option \<Rightarrow> pyval" where
  "text_value t = (case t of None \<Rightarrow> PNone | Some s \<Rightarrow> PStr s)"

text \<open>\<^verbatim>\<open>result[tag]\<close>, where \<open>result\<close> always holds \<open>tag\<close>
  (lemma \<open>internal_iter_lookup\<close>).\<close>

definition entry :: "pydict \<Rightarrow> string \<Rightarrow> pyval" where
  "entry result tag = (case map_of result tag of Some v \<Rightarrow> v | None \<Rightarrow> PNone)"

definition append_entry :: "pydict \<Rightarrow> string \<Rightarrow> pyval \<Rightarrow> pydict" where
  "append_entry sub tag v =
     (case entry sub tag of
        PList xs \<Rightarrow> setitem sub tag (PList (xs @ [v]))
      | cur \<Rightarrow> setitem sub tag (PList [cur, v]))"

fun internal_iter :: "element \<Rightarrow> pydict \<Rightarrow> pydict" where
  "internal_iter (Element tag txt children) accum =
     (if children \<noteq> [] then
        setitem accum tag (PDict (foldl (\<lambda>sub each.
            let result = internal_iter each [] in
            if contains sub (etag each)
            then append_entry sub (etag each) (entry result (etag each))
            else update sub result) [] children))
      else setitem accum tag (text_value txt))"

definition etree_to_dict :: "element \<Rightarrow> pydict" where
  "etree_to_dict element_tree = internal_iter element_tree []"

text \<open>
  \<^verbatim>\<open>etree_to_dict\<close> of \<^verbatim>\<open>huawei-sms.py\<close>, the older script:
  \<^verbatim>\<open>{t.tag : {x.tag: etree_to_dict(x) for x in t.getchildren()} or t.text}\<close>.
  The comprehension stores under each child's tag the whole dict that the recursive call
  returns, and a later child of the same tag replaces the earlier one.
\<close>

fun script_etree_to_dict :: "element \<Rightarrow> pydict" where
  "script_etree_to_dict (Element tag txt children) =
     [(tag, (let d = foldl (\<lambda>acc x. setitem acc (etag x) (PDict (script_etree_to_dict x)))
                       [] children
             in if d \<noteq> [] then PDict d else text_value txt))]"

section \<open>Propagating exceptions\<close>

text \<open>
  A call that can raise returns \<open>Inl\<close> of the exception or \<open>Inr\<close> of its
  value. \<open>bind_err r f\<close> continues with the value of \<open>r\<close> and stops at its
  exception; \<open>bind_net r n f\<close> does the same where the result is paired with the
  state of the network, which stays \<open>n\<close> when \<open>r\<close> raised.
\<close>

definition bind_err :: "error + 'a \<Rightarrow> ('a \<Rightarrow> error + 'b) \<Rightarrow> error + 'b" where
  "bind_err r f = (case r of Inl e \<Rightarrow> Inl e | Inr x \<Rightarrow> f x)"

definition bind_net :: "error + 'a \<Rightarrow> 's \<Rightarrow> ('a \<Rightarrow> (error + 'b) \<times> 's) \<Rightarrow> (error + 'b) \<times> 's" where
  "bind_net r n f = (case r of Inl e \<Rightarrow> (Inl e, n) | Inr x \<Rightarrow> f x)"

section \<open>The network\<close>

text \<open>
  The transport is the \<^verbatim>\<open>requests\<close> library. The model scripts it: the state
  \<open>net\<close> holds the replies the device will give, in order, and the calls made so far.
  A call appends itself to \<open>sent\<close> and takes the next reply; with no reply left the
  connection fails. A reply carries its status code, its text and the element that
  \<^verbatim>\<open>ET.fromstring\<close> yields on that text (\<open>None\<close> when the text is not
  well-formed XML): the parser is the standard library's and is not modelled.

  A POST body is the fixed XML declaration followed by \<^verbatim>\<open>ET.tostring\<close> of an
  element; the serialiser is the standard library's too, so a call records the element.
\<close>

datatype req_fun = requests_get | requests_post

record response =
  status_code :: int
  resp_text :: string
  resp_tree :: "element option"

record APIRequest =
  req_fun :: req_fun
  url :: string
  headers :: "pyval option"
  data :: "element option"

record net =
  replies :: "response list"
  sent :: "APIRequest list"

definition xml_declaration :: string where
  "xml_declaration = ''<?xml version='' @ [squote] @ ''1.0'' @ [squote] @
                     '' encoding='' @ [squote] @ ''UTF-8'' @ [squote] @ ''?>''"

text \<open>\<^verbatim>\<open>APIRequest.run\<close>: \<^verbatim>\<open>self.req_fun(self.url, **self.kwargs)\<close>\<close>

definition run :: "APIRequest \<Rightarrow> net \<Rightarrow> (error + response) \<times> net" where
  "run req n =
     (case replies n of
        [] \<Rightarrow> (Inl ConnectionError, n\<lparr>sent := sent n @ [req]\<rparr>)
      | r # rs \<Rightarrow> (Inr r, n\<lparr>replies := rs, sent := sent n @ [req]\<rparr>))"

section \<open>The token\<close>

text \<open>
  \<^verbatim>\<open>re.search('(?<=STR_AJAX_VALUE)\s*=\s\"(.*)\".*\n', text).group(1)\<close>.
  After the marker the pattern wants white space, \<^verbatim>\<open>=\<close>, one white-space
  character and a double quote; the group is the rest of the line up to its last double
  quote, and the line must end in a newline. The search takes the leftmost position where
  this succeeds. \<^verbatim>\<open>\s\<close> is the white space of a str pattern.
\<close>

definition is_space :: "char \<Rightarrow> bool" where
  "is_space c = (let n = (of_char c :: nat) in
     (9 \<le> n \<and> n \<le> 13) \<or> (28 \<le> n \<and> n \<le> 32) \<or> n = 133 \<or> n = 160)"

definition marker :: string where
  "marker = ''STR_AJAX_VALUE''"

definition match_after_marker :: "string \<Rightarrow> string option" where
  "match_after_marker s =
     (case dropWhile is_space s of
        c1 # c2 # c3 # rest \<Rightarrow>
          if c1 = CHR ''='' \<and> is_space c2 \<and> c3 = dquote then
            (let line = takeWhile (\<lambda>c. c \<noteq> newline) rest in
             if length line < length rest \<and> dquote \<in> set line
             then Some (rev (tl (dropWhile (\<lambda>c. c \<noteq> dquote) (rev line))))
             else None)
          else None
      | _ \<Rightarrow> None)"

fun re_search :: "string \<Rightarrow> string option" where
  "re_search [] = None"
| "re_search (c # cs) =
     (if take (length marker) (c # cs) = marker then
        (case match_after_marker (drop (length marker) (c # cs)) of
           Some t \<Rightarrow> Some t
         | None \<Rightarrow> re_search cs)
      else re_search cs)"

section \<open>The client\<close>

record HuaweiAPI =
  cfg_dict :: pyval
  common_headers :: pyval
  error_codes :: pyval
  base_url :: string
  api_dict :: pydict

text \<open>
  \<^verbatim>\<open>HuaweiAPI.__init__\<close>, from the value that \<^verbatim>\<open>yaml.load\<close> returned.
  The catalog keeps every top-level item whose key is not \<^verbatim>\<open>'common-headers'\<close>.
\<close>

definition init :: "pyval \<Rightarrow> error + HuaweiAPI" where
  "init cfg =
     bind_err (getitem cfg ''common'') (\<lambda>common.
     bind_err (getitem common ''headers'') (\<lambda>hdrs.
     bind_err (getitem common ''error-codes'') (\<lambda>codes.
     bind_err (getitem hdrs ''Host'') (\<lambda>host.
     bind_err (str_concat ''http://'' host) (\<lambda>base.
       (case cfg of
          PDict items \<Rightarrow>
            Inr \<lparr>cfg_dict = cfg, common_headers = hdrs, error_codes = codes,
                 base_url = base,
                 api_dict = filter (\<lambda>kv. \<not> fst kv = ''common-headers'') items\<rparr>
        | _ \<Rightarrow> Inl AttributeError))))))"

definition list_requests :: "HuaweiAPI \<Rightarrow> string list" where
  "list_requests api = map fst (api_dict api)"

text \<open>\<^verbatim>\<open>get_token\<close>: one GET of the vendor script; the status must be 200.\<close>

definition get_token :: "HuaweiAPI \<Rightarrow> net \<Rightarrow> (error + string) \<times> net" where
  "get_token api n =
     (case run \<lparr>req_fun = requests_get, url = base_url api @ ''/html/js/vendor.js'',
                headers = None, data = None\<rparr> n of
        (Inl e, n') \<Rightarrow> (Inl e, n')
      | (Inr vendor, n') \<Rightarrow>
          (if status_code vendor = 200 then
             (case re_search (resp_text vendor) of
                None \<Rightarrow> (Inl AttributeError, n')
              | Some token \<Rightarrow> (Inr token, n'))
           else (Inl HTTPStatus, n')))"

text \<open>
  \<^verbatim>\<open>OrderedDict(v)\<close>: a dict keeps its items; a sequence is read as pairs, a
  later pair of the same key replacing the value of the earlier one. Pairs whose key is not
  a string are outside the model and reported as \<open>TypeError\<close>, which is what a list
  or dict as key raises.
\<close>

fun pair_item :: "pyval \<Rightarrow> error + (string \<times> pyval)" where
  "pair_item (PList [PStr k, v]) = Inr (k, v)"
| "pair_item (PList [_, _]) = Inl TypeError"
| "pair_item (PList _) = Inl ValueError"
| "pair_item (PStr [a, b]) = Inr ([a], PStr [b])"
| "pair_item (PStr _) = Inl ValueError"
| "pair_item (PDict [(a, _), (b, _)]) = Inr (a, PStr b)"
| "pair_item (PDict _) = Inl ValueError"
| "pair_item _ = Inl TypeError"

fun from_pairs :: "pydict \<Rightarrow> pyval list \<Rightarrow> error + pydict" where
  "from_pairs acc [] = Inr acc"
| "from_pairs acc (x # xs) =
     bind_err (pair_item x) (\<lambda>kv. from_pairs (setitem acc (fst kv) (snd kv)) xs)"

fun OrderedDict :: "pyval \<Rightarrow> error + pydict" where
  "OrderedDict (PDict d) = Inr d"
| "OrderedDict (PList xs) = from_pairs [] xs"
| "OrderedDict (PStr s) = (if s = [] then Inr [] else Inl ValueError)"
| "OrderedDict _ = Inl TypeError"

text \<open>\<^verbatim>\<open>headers['Referer'] = v\<close>: only a dict takes a string key.\<close>

fun set_header :: "pyval \<Rightarrow> string \<Rightarrow> pyval \<Rightarrow> error + pyval" where
  "set_header (PDict h) k v = Inr (PDict (setitem h k v))"
| "set_header _ k v = Inl TypeError"

text \<open>
  The loop over \<^verbatim>\<open>kwargs.items()\<close>: a key that is in \<open>request\<close> gets the
  new value, a dict as it is and anything else through \<^verbatim>\<open>str\<close>; any other key
  is skipped.
\<close>

definition override_value :: "pyval \<Rightarrow> pyval" where
  "override_value val = (case val of PDict d \<Rightarrow> PDict d | _ \<Rightarrow> PStr (str val))"

fun apply_kwargs :: "pydict \<Rightarrow> pydict \<Rightarrow> pydict" where
  "apply_kwargs request [] = request"
| "apply_kwargs request ((key, val) # kwargs) =
     apply_kwargs
       (if contains request key then setitem request key (override_value val)
        else request) kwargs"

text \<open>
  \<^verbatim>\<open>make_request\<close>. The result is the request object, or \<open>None\<close> when the
  method is neither \<^verbatim>\<open>'post'\<close> nor \<^verbatim>\<open>'get'\<close>: the
  \<^verbatim>\<open>if\<close>/\<^verbatim>\<open>elif\<close> has no \<^verbatim>\<open>else\<close>.
  \<open>post_request\<close> is the branch for \<^verbatim>\<open>'post'\<close>, statement by statement:
  the fields, the referer, then the token, which is fetched and stored under
  \<^verbatim>\<open>'token'\<close> before the keyword arguments are applied, then the body.
\<close>

definition post_request ::
  "HuaweiAPI \<Rightarrow> net \<Rightarrow> pyval \<Rightarrow> string \<Rightarrow> pydict \<Rightarrow> (error + APIRequest option) \<times> net" where
  "post_request api n cmd_dict full_url kwargs =
     bind_net (getitem cmd_dict ''request'') n (\<lambda>r.
     bind_net (OrderedDict r) n (\<lambda>request.
     bind_net (get cmd_dict ''Referer'') n (\<lambda>referer.
     bind_net (if truthy referer then set_header (common_headers api) ''Referer'' referer
               else Inr (common_headers api)) n (\<lambda>hdrs.
       (case get_token api n of
          (Inl e, n') \<Rightarrow> (Inl e, n')
        | (Inr token, n') \<Rightarrow>
            (Inr (Some \<lparr>req_fun = requests_post, url = full_url, headers = Some hdrs,
                        data = Some (dict_to_xml ''request''
                          (apply_kwargs (setitem request ''token'' (PStr token)) kwargs))\<rparr>),
             n'))))))"

definition make_request ::
  "HuaweiAPI \<Rightarrow> net \<Rightarrow> string \<Rightarrow> pydict \<Rightarrow> (error + APIRequest option) \<times> net" where
  "make_request api n name kwargs =
     (if \<not> contains (api_dict api) name then (Inl APIError, n)
      else
        (let cmd_dict = entry (api_dict api) name in
         bind_net (getitem cmd_dict ''url'') n (\<lambda>u.
         bind_net (str_concat (base_url api) u) n (\<lambda>full_url.
         bind_net (getitem cmd_dict ''method'') n (\<lambda>method.
           if method = PStr ''post'' then post_request api n cmd_dict full_url kwargs
           else if method = PStr ''get'' then
             (Inr (Some \<lparr>req_fun = requests_get, url = full_url, headers = None,
                         data = None\<rparr>), n)
           else (Inr None, n))))))"

text \<open>\<^verbatim>\<open>response_to_dict\<close>: \<^verbatim>\<open>etree_to_dict(ET.fromstring(r.text))\<close>\<close>

definition response_to_dict :: "response \<Rightarrow> error + pyval" where
  "response_to_dict r =
     (case resp_tree r of None \<Rightarrow> Inl ParseError | Some t \<Rightarrow> Inr (PDict (etree_to_dict t)))"

text \<open>
  \<^verbatim>\<open>run_command\<close> returns the pair of the status code and the decoded body,
  whatever the status. Calling \<^verbatim>\<open>run\<close> on \<^verbatim>\<open>None\<close> raises
  \<^verbatim>\<open>AttributeError\<close>.
\<close>

definition run_command ::
  "HuaweiAPI \<Rightarrow> net \<Rightarrow> string \<Rightarrow> pydict \<Rightarrow> (error + int \<times> pyval) \<times> net" where
  "run_command api n name kwargs =
     (case make_request api n name kwargs of
        (Inl e, n1) \<Rightarrow> (Inl e, n1)
      | (Inr None, n1) \<Rightarrow> (Inl AttributeError, n1)
      | (Inr (Some req), n1) \<Rightarrow>
          (case run req n1 of
             (Inl e, n2) \<Rightarrow> (Inl e, n2)
           | (Inr resp, n2) \<Rightarrow>
               bind_net (response_to_dict resp) n2 (\<lambda>body.
                 (Inr (status_code resp, body), n2))))"

text \<open>
  \<^verbatim>\<open>get_inbox\<close>. \<^verbatim>\<open>HTTPStatus\<close> is raised bare: the exception class has
  no fields.
\<close>

definition is_dict :: "pyval \<Rightarrow> bool" where
  "is_dict v = (case v of PDict _ \<Rightarrow> True | _ \<Rightarrow> False)"

definition as_list :: "pyval \<Rightarrow> pyval list" where
  "as_list messages = (case messages of PList ms \<Rightarrow> ms | _ \<Rightarrow> [messages])"

definition get_inbox :: "HuaweiAPI \<Rightarrow> net \<Rightarrow> (error + pyval list) \<times> net" where
  "get_inbox api n =
     (case run_command api n ''sms-list'' [] of
        (Inl e, n') \<Rightarrow> (Inl e, n')
      | (Inr (status, body), n') \<Rightarrow>
          (if status = 200 then
             bind_net (getitem body ''response'') n' (\<lambda>resp.
             bind_net (get resp ''Messages'') n' (\<lambda>message_dict.
               if is_dict message_dict then
                 bind_net (get message_dict ''Message'') n' (\<lambda>messages.
                   (Inr (as_list messages), n'))
               else (Inr [], n')))
           else (Inl HTTPStatus, n')))"

section \<open>A catalog and a device to run the client on\<close>

text \<open>
  A configuration of the shape the client expects: the \<^verbatim>\<open>common\<close> section and
  four commands, one of them with a method the client does not know. The device answers the
  token request with a script that holds the marker line, and the command with an inbox of
  no, one or two messages.
\<close>

definition sms_defaults :: pydict where
  "sms_defaults =
     [(''Index'', PStr ''-1''),
      (''Phones'', PDict [(''Phone'', PStr [])]),
      (''Content'', PStr []),
      (''Length'', PStr ''0''),
      (''Date'', PStr [])]"

definition sms_cmd :: pydict where
  "sms_cmd =
     [(''url'', PStr ''/api/sms/send-sms''),
      (''method'', PStr ''post''),
      (''request'', PDict sms_defaults)]"

definition sms_list_cmd :: pydict where
  "sms_list_cmd =
     [(''url'', PStr ''/api/sms/sms-list''),
      (''method'', PStr ''post''),
      (''request'', PDict [(''PageIndex'', PInt 1), (''ReadCount'', PInt 20)])]"

definition reset_cmd :: pydict where
  "reset_cmd = [(''url'', PStr ''/api/device/control''), (''method'', PStr ''put'')]"

definition example_cfg :: pyval where
  "example_cfg = PDict
     [(''common'', PDict
        [(''headers'', PDict [(''Host'', PStr ''192.168.9.1'')]),
         (''error-codes'', PDict [])]),
      (''sms'', PDict sms_cmd),
      (''sms-list'', PDict sms_list_cmd),
      (''status'', PDict
        [(''url'', PStr ''/api/monitoring/status''),
         (''method'', PStr ''get'')]),
      (''reset'', PDict reset_cmd)]"

definition example_api :: HuaweiAPI where
  "example_api =
     \<lparr>cfg_dict = example_cfg,
      common_headers = PDict [(''Host'', PStr ''192.168.9.1'')],
      error_codes = PDict [],
      base_url = ''http://192.168.9.1'',
      api_dict = (case example_cfg of PDict items \<Rightarrow> items | _ \<Rightarrow> [])\<rparr>"

definition vendor_js :: string where
  "vendor_js = ''var STR_AJAX_VALUE = '' @ [dquote] @ ''T0K3N'' @ [dquote] @ '';'' @ [newline]"

definition vendor_reply :: response where
  "vendor_reply = \<lparr>status_code = 200, resp_text = vendor_js, resp_tree = None\<rparr>"

definition vendor_call :: APIRequest where
  "vendor_call = \<lparr>req_fun = requests_get, url = ''http://192.168.9.1/html/js/vendor.js'',
                   headers = None, data = None\<rparr>"

definition message :: "string \<Rightarrow> string \<Rightarrow> element" where
  "message index content = Element ''Message'' None
     [Element ''Index'' (Some index) [], Element ''Content'' (Some content) [],
      Element ''Sca'' None []]"

definition inbox_none :: "element list" where
  "inbox_none = [Element ''Count'' (Some ''0'') [], Element ''Messages'' None []]"

definition inbox_one :: "element list" where
  "inbox_one =
     [Element ''Count'' (Some ''1'') [],
      Element ''Messages'' None [message ''40007'' ''Test'']]"

definition inbox_two :: "element list" where
  "inbox_two =
     [Element ''Count'' (Some ''2'') [],
      Element ''Messages'' None [message ''40007'' ''Test'', message ''40008'' ''Again'']]"

definition reply :: "int \<Rightarrow> element \<Rightarrow> response" where
  "reply code t = \<lparr>status_code = code, resp_text = [], resp_tree = Some t\<rparr>"

definition inbox_reply :: "int \<Rightarrow> element list \<Rightarrow> response" where
  "inbox_reply code cs = reply code (Element ''response'' None cs)"

definition device_replying :: "response \<Rightarrow> net" where
  "device_replying r = \<lparr>replies = [vendor_reply, r], sent = []\<rparr>"

definition device :: "int \<Rightarrow> element list \<Rightarrow> net" where
  "device code cs = device_replying (inbox_reply code cs)"

text \<open>
  The body with which the device reports an error of its own under status 200, and a
  \<^verbatim>\<open>response\<close> element with nothing in it.
\<close>

definition error_body :: element where
  "error_body = Element ''error'' None
     [Element ''code'' (Some ''125003'') [], Element ''message'' None []]"

definition empty_response :: element where
  "empty_response = Element ''response'' None []"

definition example_net :: net where
  "example_net = device 200 inbox_one"

definition failing_net :: net where
  "failing_net = device 500 inbox_one"

definition net_after_token :: net where
  "net_after_token = \<lparr>replies = [inbox_reply 200 inbox_one], sent = [vendor_call]\<rparr>"

text \<open>
  The call \<^verbatim>\<open>send_sms('hi', '0412345678')\<close> makes, and the request it builds when
  the token is \<open>token\<close>.
\<close>

definition sms_kwargs :: pydict where
  "sms_kwargs =
     [(''Content'', PStr ''hi''),
      (''Length'', PInt 3),
      (''Date'', PStr ''2017-08-24T01:05:11''),
      (''Phones'', PDict [(''Phone'', PStr ''0412345678'')])]"

definition sms_tree :: "string \<Rightarrow> element" where
  "sms_tree token = Element ''request'' None
     [Element ''Index'' (Some ''-1'') [],
      Element ''Phones'' None [Element ''Phone'' (Some ''0412345678'') []],
      Element ''Content'' (Some ''hi'') [],
      Element ''Length'' (Some ''3'') [],
      Element ''Date'' (Some ''2017-08-24T01:05:11'') [],
      Element ''token'' (Some token) []]"

definition sms_request :: "element \<Rightarrow> APIRequest" where
  "sms_request tree =
     \<lparr>req_fun = requests_post, url = ''http://192.168.9.1/api/sms/send-sms'',
      headers = Some (PDict [(''Host'', PStr ''192.168.9.1'')]),
      data = Some tree\<rparr>"

text \<open>The request that the defaults alone give.\<close>

definition default_tree :: "string \<Rightarrow> element" where
  "default_tree token = Element ''request'' None
     [Element ''Index'' (Some ''-1'') [],
      Element ''Phones'' None [Element ''Phone'' (Some []) []],
      Element ''Content'' (Some []) [],
      Element ''Length'' (Some ''0'') [],
      Element ''Date'' (Some []) [],
      Element ''token'' (Some token) []]"

text \<open>The request for the inbox, as the device receives it.\<close>

definition sms_list_request :: APIRequest where
  "sms_list_request =
     \<lparr>req_fun = requests_post, url = ''http://192.168.9.1/api/sms/sms-list'',
      headers = Some (PDict [(''Host'', PStr ''192.168.9.1'')]),
      data = Some (Element ''request'' None
        [Element ''PageIndex'' (Some ''1'') [], Element ''ReadCount'' (Some ''20'') [],
         Element ''token'' (Some ''T0K3N'') []])\<rparr>"

definition net_done :: net where
  "net_done = \<lparr>replies = [], sent = [vendor_call, sms_list_request]\<rparr>"

section \<open>Values that survive encoding and decoding\<close>

text \<open>
  \<open>roundtrips v\<close>: \<open>v\<close> is a string, or a dict that is not empty and whose
  values are such values again. \<open>encode_item\<close> is what \<^verbatim>\<open>dict_to_xml\<close>
  does with one item (lemma \<open>dict_to_xml_unfold\<close>).
\<close>

fun roundtrips :: "pyval \<Rightarrow> bool" where
  "roundtrips (PStr s) = True"
| "roundtrips (PDict kvs) =
     (kvs \<noteq> [] \<and> distinct (map fst kvs) \<and> list_all (\<lambda>kv. roundtrips (snd kv)) kvs)"
| "roundtrips _ = False"

definition encode_item :: "string \<times> pyval \<Rightarrow> element" where
  "encode_item kv = (case snd kv of
       PDict sub \<Rightarrow> dict_to_xml (fst kv) sub
     | _ \<Rightarrow> Element (fst kv) (Some (str (snd kv))) [])"

section \<open>Reading the decoder's result\<close>

text \<open>
  \<open>decoded e\<close> is the value that \<^verbatim>\<open>etree_to_dict\<close> stores for the element
  \<open>e\<close>; \<open>add_child\<close> is the body of the loop of \<^verbatim>\<open>internal_iter\<close>
  (lemma \<open>internal_iter_unfold\<close>). \<open>named t cs\<close> are the children tagged
  \<open>t\<close>, in document order, and \<open>group_value\<close> is what a parent holds for the
  decoded values of such a group: nothing for no child, the value itself for one child, the
  list of the values for several.
\<close>

definition decoded :: "element \<Rightarrow> pyval" where
  "decoded e = entry (etree_to_dict e) (etag e)"

definition add_child :: "pydict \<Rightarrow> element \<Rightarrow> pydict" where
  "add_child sub each =
     (let result = internal_iter each [] in
      if contains sub (etag each)
      then append_entry sub (etag each) (entry result (etag each))
      else update sub result)"

definition group_value :: "pyval list \<Rightarrow> pyval option" where
  "group_value vs = (case vs of [] \<Rightarrow> None | [v] \<Rightarrow> Some v | _ \<Rightarrow> Some (PList vs))"

definition named :: "string \<Rightarrow> element list \<Rightarrow> element list" where
  "named t cs = filter (\<lambda>c. etag c = t) cs"

section \<open>Facts about dictionaries\<close>

lemma map_fst_setitem:
  "map fst (setitem d k v) = (if k \<in> set (map fst d) then map fst d else map fst d @ [k])"
  by (induction d) (auto simp: rev_image_eqI)

lemma map_of_setitem: "map_of (setitem d k v) = (map_of d)(k \<mapsto> v)"
  by (induction d) auto

lemma distinct_setitem: "distinct (map fst d) \<Longrightarrow> distinct (map fst (setitem d k v))"
  by (simp add: map_fst_setitem)

lemma contains_setitem: "contains (setitem d k v) k' = (contains d k' \<or> k' = k)"
  by (auto simp: contains_def map_fst_setitem)

lemma map_fst_apply_kwargs: "map fst (apply_kwargs request kwargs) = map fst request"
  by (induction request kwargs rule: apply_kwargs.induct)
     (auto simp: map_fst_setitem contains_def)

lemma dict_to_xml_tags: "map etag (getchildren (dict_to_xml tag d)) = map fst d"
  by (auto split: pyval.splits)

lemma contains_map_of: "map_of d k = Some v \<Longrightarrow> contains d k"
  by (auto simp: contains_def dest: map_of_SomeD intro: rev_image_eqI)

lemma entry_map_of: "map_of d k = Some v \<Longrightarrow> entry d k = v"
  by (simp add: entry_def)

lemma apply_kwargs_skip:
  "\<not> contains request key \<Longrightarrow>
   apply_kwargs request (kw1 @ (key, val) # kw2) = apply_kwargs request (kw1 @ kw2)"
proof (induction kw1 arbitrary: request)
  case Nil
  then show ?case by simp
next
  case (Cons kv kw1)
  obtain k v where kv: "kv = (k, v)" by (cases kv)
  show ?case
  proof (cases "contains request k")
    case True
    with Cons.prems have "\<not> contains (setitem request k (override_value v)) key"
      by (auto simp: contains_setitem)
    from Cons.IH [OF this] True show ?thesis by (simp add: kv)
  next
    case False
    with Cons.IH [OF Cons.prems] show ?thesis by (simp add: kv)
  qed
qed

lemma setitem_append: "contains r k \<Longrightarrow> setitem (r @ s) k v = setitem r k v @ s"
  by (induction r) (auto simp: contains_def rev_image_eqI)

lemma setitem_new: "\<not> contains r k \<Longrightarrow> setitem r k v = r @ [(k, v)]"
  by (induction r) (auto simp: contains_def)

lemma apply_kwargs_snoc:
  "\<not> contains kwargs k \<Longrightarrow>
   apply_kwargs (r @ [(k, v)]) kwargs = apply_kwargs r kwargs @ [(k, v)]"
proof (induction kwargs arbitrary: r)
  case Nil
  then show ?case by simp
next
  case (Cons kv kwargs)
  obtain key val where kv: "kv = (key, val)" by (cases kv)
  from Cons.prems have ne: "key \<noteq> k" and rest: "\<not> contains kwargs k"
    by (auto simp: contains_def kv)
  have c: "contains (r @ [(k, v)]) key = contains r key"
    using ne by (auto simp: contains_def)
  show ?case
    using Cons.IH [OF rest] by (simp add: kv c setitem_append)
qed

section \<open>Facts about the decoder\<close>

lemma internal_iter_unfold:
  "internal_iter (Element tag txt cs) accum =
     setitem accum tag (if cs \<noteq> [] then PDict (foldl add_child [] cs) else text_value txt)"
  by (simp add: add_child_def [abs_def])

lemma internal_iter_nil: "internal_iter e [] = [(etag e, decoded e)]"
  by (cases e) (simp add: decoded_def etree_to_dict_def entry_def del: internal_iter.simps
                     add: internal_iter_unfold)

lemma decoded_Element:
  "decoded (Element tag txt cs) =
     (if cs \<noteq> [] then PDict (foldl add_child [] cs) else text_value txt)"
  by (simp add: decoded_def etree_to_dict_def entry_def internal_iter_unfold
           del: internal_iter.simps)

lemma decoded_not_list: "decoded e \<noteq> PList xs"
  by (cases e) (auto simp: decoded_Element text_value_def split: option.splits)

lemma add_child_eq:
  "add_child sub c =
     (if contains sub (etag c) then append_entry sub (etag c) (decoded c)
      else setitem sub (etag c) (decoded c))"
  by (simp add: add_child_def internal_iter_nil entry_def update_def)

lemma etree_to_dict_Element:
  "etree_to_dict (Element tag txt cs) =
     [(tag, if cs \<noteq> [] then PDict (foldl add_child [] cs) else text_value txt)]"
  by (simp add: etree_to_dict_def internal_iter_unfold del: internal_iter.simps)

lemma group_value_snoc:
  assumes "\<forall>x \<in> set vs. \<forall>xs. x \<noteq> PList xs"
  shows "group_value (vs @ [v]) =
     Some (case group_value vs of None \<Rightarrow> v
           | Some (PList xs) \<Rightarrow> PList (xs @ [v])
           | Some cur \<Rightarrow> PList [cur, v])"
proof (cases vs)
  case Nil
  then show ?thesis by (simp add: group_value_def)
next
  case (Cons a as)
  show ?thesis
  proof (cases as)
    case Nil
    with Cons assms show ?thesis
      by (cases a) (auto simp: group_value_def)
  next
    case (Cons b bs)
    with \<open>vs = a # as\<close> show ?thesis
      by (simp add: group_value_def split: list.splits)
  qed
qed

lemma group_value_None: "(group_value vs = None) = (vs = [])"
  by (auto simp: group_value_def split: list.splits)

lemma children_lookup:
  "map_of (foldl add_child [] cs) t = group_value (map decoded (named t cs))"
proof (induction cs arbitrary: t rule: rev_induct)
  case Nil
  then show ?case by (simp add: group_value_def named_def)
next
  case (snoc c cs)
  let ?sub = "foldl add_child [] cs"
  have nl: "\<forall>x \<in> set (map decoded (named u cs)). \<forall>xs. x \<noteq> PList xs" for u
    by (auto simp: decoded_not_list)
  have cont: "contains ?sub u = (named u cs \<noteq> [])" for u
  proof -
    have "(map_of ?sub u = None) = (named u cs = [])"
      by (simp add: snoc.IH group_value_None)
    then show ?thesis
      by (auto simp: contains_def map_of_eq_None_iff)
  qed
  have step: "foldl add_child [] (cs @ [c]) =
      (if named (etag c) cs \<noteq> [] then append_entry ?sub (etag c) (decoded c)
       else setitem ?sub (etag c) (decoded c))"
    by (simp only: foldl_append foldl_Cons foldl_Nil add_child_eq [of ?sub c] cont)
  have e: "entry ?sub u = (case group_value (map decoded (named u cs)) of
                             Some v \<Rightarrow> v | None \<Rightarrow> PNone)" for u
    by (simp only: entry_def snoc.IH)
  show ?case
  proof (cases "etag c = t")
    case False
    then have "map_of (foldl add_child [] (cs @ [c])) t = map_of ?sub t"
      by (simp only: step) (auto simp: append_entry_def map_of_setitem split: pyval.splits)
    with False show ?thesis by (simp add: snoc.IH named_def)
  next
    case True
    have n: "named t (cs @ [c]) = named t cs @ [c]"
      using True by (simp add: named_def)
    show ?thesis
    proof (cases "named t cs = []")
      case True
      with \<open>etag c = t\<close> show ?thesis
        by (simp only: step n) (simp add: map_of_setitem group_value_def)
    next
      case False
      then obtain v where v: "group_value (map decoded (named t cs)) = Some v"
        using group_value_None [of "map decoded (named t cs)"] by auto
      from False \<open>etag c = t\<close> show ?thesis
        by (simp only: step n)
           (simp add: map_of_setitem group_value_snoc [OF nl] append_entry_def e v
                 split: pyval.splits)
    qed
  qed
qed

lemma map_fst_add_child:
  "map fst (add_child sub c) =
     (if etag c \<in> set (map fst sub) then map fst sub else map fst sub @ [etag c])"
  by (simp add: add_child_eq append_entry_def map_fst_setitem contains_def split: pyval.splits)

lemma children_distinct: "distinct (map fst (foldl add_child [] cs))"
proof (induction cs rule: rev_induct)
  case Nil
  then show ?case by simp
next
  case (snoc c cs)
  then show ?case
    using map_fst_add_child [of "foldl add_child [] cs" c] by (simp split: if_splits)
qed

lemma children_keys: "set (map fst (foldl add_child [] cs)) = set (map etag cs)"
proof (induction cs rule: rev_induct)
  case Nil
  then show ?case by simp
next
  case (snoc c cs)
  then show ?case
    using map_fst_add_child [of "foldl add_child [] cs" c] by (auto split: if_splits)
qed

section \<open>Facts about the token request\<close>

lemma get_token_sent:
  "sent (snd (get_token api n)) =
   sent n @ [\<lparr>req_fun = requests_get, url = base_url api @ ''/html/js/vendor.js'',
              headers = None, data = None\<rparr>]"
  by (simp add: get_token_def run_def split: list.splits option.splits)

lemma get_token_success:
  "replies n = r # rs \<Longrightarrow> status_code r = 200 \<Longrightarrow> re_search (resp_text r) = Some token \<Longrightarrow>
   fst (get_token api n) = Inr token"
  by (simp add: get_token_def run_def)

lemma post_request_sent:
  assumes "map_of cmd ''request'' = Some (PDict defaults)"
    and "common_headers api = PDict h"
  shows "sent (snd (post_request api n (PDict cmd) full_url kwargs)) =
         sent n @ [\<lparr>req_fun = requests_get, url = base_url api @ ''/html/js/vendor.js'',
                    headers = None, data = None\<rparr>]"
proof -
  obtain referer where r: "get (PDict cmd) ''Referer'' = Inr referer"
    by (cases "map_of cmd ''Referer''") auto
  obtain hdrs where h: "(if truthy referer then set_header (common_headers api) ''Referer'' referer
               else Inr (common_headers api)) = Inr hdrs"
    by (cases "truthy referer") (auto simp: assms(2))
  show ?thesis
    using get_token_sent [of api n]
    by (cases "get_token api n")
       (auto simp: post_request_def bind_net_def assms(1) r h simp del: get.simps split: sum.splits)
qed

lemma post_request_token_last:
  assumes "map_of cmd ''request'' = Some (PDict defaults)"
    and "common_headers api = PDict h"
    and "fst (get_token api n) = Inr token"
    and "\<not> contains defaults ''token''" and "\<not> contains kwargs ''token''"
  shows "\<exists>req tree. fst (post_request api n (PDict cmd) full_url kwargs) = Inr (Some req)
           \<and> data req = Some tree \<and> getchildren tree \<noteq> []
           \<and> last (getchildren tree) = Element ''token'' (Some token) []"
proof -
  obtain referer where r: "get (PDict cmd) ''Referer'' = Inr referer"
    by (cases "map_of cmd ''Referer''") auto
  obtain hdrs where h: "(if truthy referer then set_header (common_headers api) ''Referer'' referer
               else Inr (common_headers api)) = Inr hdrs"
    by (cases "truthy referer") (auto simp: assms(2))
  have fields: "apply_kwargs (setitem defaults ''token'' (PStr token)) kwargs =
                apply_kwargs defaults kwargs @ [(''token'', PStr token)]"
    by (simp only: setitem_new [OF assms(4)] apply_kwargs_snoc [OF assms(5)])
  show ?thesis
    using assms(3)
    by (cases "get_token api n")
       (auto simp: post_request_def bind_net_def assms(1) r h fields
             simp del: get.simps split: sum.splits)
qed

section \<open>Exceptions a known command name can end in\<close>

lemma bind_net_not_APIError:
  assumes "r \<noteq> Inl APIError" and "\<And>x. fst (f x) \<noteq> Inl APIError"
  shows "fst (bind_net r n f) \<noteq> Inl APIError"
  using assms by (cases r) (auto simp: bind_net_def)

lemma getitem_not_APIError: "getitem v k \<noteq> Inl APIError"
  by (cases v) (auto split: option.splits)

lemma get_not_APIError: "get v k \<noteq> Inl APIError"
  by (cases v) (auto split: option.splits)

lemma str_concat_not_APIError: "str_concat s v \<noteq> Inl APIError"
  by (cases v) auto

lemma pair_item_not_APIError: "pair_item v \<noteq> Inl APIError"
  by (cases v rule: pair_item.cases) auto

lemma from_pairs_not_APIError: "from_pairs acc xs \<noteq> Inl APIError"
  using pair_item_not_APIError
  by (induction xs arbitrary: acc) (auto simp: bind_err_def split: sum.splits)

lemma OrderedDict_not_APIError: "OrderedDict v \<noteq> Inl APIError"
  by (cases v) (auto simp: from_pairs_not_APIError)

lemma set_header_not_APIError: "set_header v k x \<noteq> Inl APIError"
  by (cases v) auto

lemma get_token_not_APIError: "fst (get_token api n) \<noteq> Inl APIError"
  by (auto simp: get_token_def run_def split: list.splits option.splits)

lemma post_request_not_APIError:
  "fst (post_request api n cmd_dict full_url kwargs) \<noteq> Inl APIError"
  unfolding post_request_def
  apply (intro bind_net_not_APIError getitem_not_APIError OrderedDict_not_APIError
               get_not_APIError)
  subgoal by (simp add: set_header_not_APIError)
  subgoal using get_token_not_APIError [of api n]
    by (cases "get_token api n") (auto split: sum.splits)
  done

lemma make_request_known_name:
  "contains (api_dict api) name \<Longrightarrow> fst (make_request api n name kwargs) \<noteq> Inl APIError"
  unfolding make_request_def Let_def
  apply (simp only: if_not_P not_not if_True if_False)
  apply (intro bind_net_not_APIError getitem_not_APIError str_concat_not_APIError)
  apply (simp add: post_request_not_APIError)
  done

section \<open>Facts about encoding, and about running a command\<close>

lemma dict_to_xml_unfold: "dict_to_xml tag d = Element tag None (map encode_item d)"
  by (simp add: encode_item_def case_prod_unfold)

lemma etag_dict_to_xml: "etag (dict_to_xml tag d) = tag"
  by simp

lemma etag_encode_item: "etag (encode_item kv) = fst kv"
  by (cases "snd kv") (simp_all add: encode_item_def)

lemma foldl_add_child_fresh:
  "distinct (map etag cs) \<Longrightarrow> set (map etag cs) \<inter> set (map fst acc) = {} \<Longrightarrow>
   foldl add_child acc cs = acc @ map (\<lambda>c. (etag c, decoded c)) cs"
proof (induction cs arbitrary: acc)
  case Nil
  then show ?case by simp
next
  case (Cons c cs)
  have fresh: "\<not> contains acc (etag c)"
    using Cons.prems(2) by (auto simp: contains_def)
  have step: "add_child acc c = acc @ [(etag c, decoded c)]"
    by (simp only: add_child_eq [of acc c] fresh if_False setitem_new [OF fresh])
  have "foldl add_child (acc @ [(etag c, decoded c)]) cs =
        (acc @ [(etag c, decoded c)]) @ map (\<lambda>c. (etag c, decoded c)) cs"
    using Cons.prems by (intro Cons.IH) auto
  then show ?case by (simp only: foldl_Cons step) simp
qed

lemma run_command_ok:
  assumes "make_request api n name kwargs = (Inr (Some req), n1)"
    and "replies n1 = resp # rest" and "resp_tree resp = Some t"
  shows "run_command api n name kwargs =
         (Inr (status_code resp, PDict (etree_to_dict t)),
          n1\<lparr>replies := rest, sent := sent n1 @ [req]\<rparr>)"
  by (simp add: run_command_def assms run_def response_to_dict_def bind_net_def)

lemma get_inbox_result:
  assumes "run_command api n ''sms-list'' [] =
           (Inr (200, PDict (etree_to_dict (Element ''response'' txt cs))), n')"
    and "cs \<noteq> []"
  shows "get_inbox api n =
     (case group_value (map decoded (named ''Messages'' cs)) of
        Some (PDict md) \<Rightarrow>
          (Inr (as_list (case map_of md ''Message'' of None \<Rightarrow> PNone | Some v \<Rightarrow> v)), n')
      | _ \<Rightarrow> (Inr [], n'))"
  using assms(2)
  by (simp add: get_inbox_def assms(1) etree_to_dict_Element bind_net_def children_lookup
                is_dict_def split: option.splits pyval.splits)

section \<open>The element that a POST request carries\<close>

lemma make_request_tree:
  assumes "map_of (api_dict api) name = Some (PDict cmd)"
    and "map_of cmd ''request'' = Some (PDict defaults)"
    and "make_request api n name kwargs = (Inr (Some req), n')"
    and "data req = Some tree"
  shows "\<exists>token.
    tree = dict_to_xml ''request'' (apply_kwargs (setitem defaults ''token'' token) kwargs)"
proof -
  have c: "contains (api_dict api) name" and e: "entry (api_dict api) name = PDict cmd"
    using assms(1) by (simp_all add: contains_map_of entry_map_of)
  from assms(3) obtain full_url where
    p: "post_request api n (PDict cmd) full_url kwargs = (Inr (Some req), n')"
    using assms(4)
    by (auto simp: make_request_def c e bind_net_def Let_def
             split: sum.splits if_splits option.splits)
  from p assms(2) show ?thesis
    using assms(4)
    by (auto simp: post_request_def bind_net_def
             split: sum.splits if_splits option.splits prod.splits)
qed

section \<open>C1: children with the same tag\<close>

text \<open>
  Claim C1. Decoding follows the rule for repeated children: when a tag occurs once among
  the children of an element, the parent's entry for the tag is the decoded child itself;
  when it occurs several times, the entry is the list of the decoded children in document
  order. So \<^verbatim>\<open><a><b>1</b></a>\<close> gives \<^verbatim>\<open>{a: {b: "1"}}\<close> and
  \<^verbatim>\<open><a><b>1</b><b>2</b></a>\<close> gives \<^verbatim>\<open>{a: {b: ["1","2"]}}\<close>.

  The repository has two decoders. \<^verbatim>\<open>etree_to_dict\<close> of
  \<^verbatim>\<open>huaweisms.py\<close> follows the rule, for every element with children:
\<close>

lemma etree_to_dict_tie_break:
  assumes "cs \<noteq> []"
  shows "\<exists>sub. etree_to_dict (Element tag txt cs) = [(tag, PDict sub)]
           \<and> distinct (map fst sub) \<and> set (map fst sub) = set (map etag cs)
           \<and> (\<forall>c \<in> set cs. map_of sub (etag c) =
                 Some (if length (named (etag c) cs) = 1 then decoded c
                       else PList (map decoded (named (etag c) cs))))"
proof -
  let ?sub = "foldl add_child [] cs"
  have "map_of ?sub (etag c) =
          Some (if length (named (etag c) cs) = 1 then decoded c
                else PList (map decoded (named (etag c) cs)))" if "c \<in> set cs" for c
  proof -
    from that have mem: "c \<in> set (named (etag c) cs)" by (simp add: named_def)
    show ?thesis
    proof (cases "named (etag c) cs")
      case Nil
      with mem show ?thesis by simp
    next
      case (Cons x xs)
      then show ?thesis
        using mem by (cases xs) (auto simp: children_lookup group_value_def)
    qed
  qed
  then show ?thesis
    using assms children_distinct [of cs] children_keys [of cs]
    by (simp add: etree_to_dict_Element)
qed

lemma etree_to_dict_examples:
  "etree_to_dict (Element ''a'' None [Element ''b'' (Some ''1'') []]) =
     [(''a'', PDict [(''b'', PStr ''1'')])]
   \<and> etree_to_dict (Element ''a'' None
        [Element ''b'' (Some ''1'') [], Element ''b'' (Some ''2'') []]) =
     [(''a'', PDict [(''b'', PList [PStr ''1'', PStr ''2''])])]"
  by code_simp

text \<open>
  Claim C1 on \<^verbatim>\<open>etree_to_dict\<close> of \<^verbatim>\<open>huawei-sms.py\<close>. The one-line
  decoder of the script does not follow the rule. On the two documents of the claim it
  stores under \<^verbatim>\<open>b\<close> the whole dict that the recursive call returns, so the single
  child is wrapped once more, and of the two children only the last is left.
\<close>

theorem script_etree_to_dict_repeated_children:
  "script_etree_to_dict (Element ''a'' None [Element ''b'' (Some ''1'') []]) =
     [(''a'', PDict [(''b'', PDict [(''b'', PStr ''1'')])])]
   \<and> script_etree_to_dict (Element ''a'' None
        [Element ''b'' (Some ''1'') [], Element ''b'' (Some ''2'') []]) =
     [(''a'', PDict [(''b'', PDict [(''b'', PStr ''2'')])])]"
  by code_simp

section \<open>C2: encoding and decoding again\<close>

text \<open>
  Claim C2, as the code has it. For every tag and every dict that is not empty and whose
  values are strings or dicts of the same kind, decoding the encoded dict gives the dict
  back under the tag: \<^verbatim>\<open>etree_to_dict(dict_to_xml(tag, d)) == {tag: d}\<close>.
  An element without text decodes to \<^verbatim>\<open>None\<close>, so an empty dict, which is encoded
  as an element without children and without text, does not come back.
\<close>

theorem roundtrip_nonempty_nodes:
  "roundtrips (PDict d) \<Longrightarrow> etree_to_dict (dict_to_xml tag d) = [(tag, PDict d)]"
proof (induction tag d rule: dict_to_xml.induct)
  case (1 tag d)
  from "1.prems" have ne: "d \<noteq> []" and dist: "distinct (map fst d)"
    and vals: "\<And>kv. kv \<in> set d \<Longrightarrow> roundtrips (snd kv)"
    by (auto simp: list_all_iff)
  have dec: "decoded (encode_item kv) = snd kv" if "kv \<in> set d" for kv
  proof (cases "snd kv")
    case (PStr s)
    then show ?thesis
      by (simp add: encode_item_def decoded_Element text_value_def)
  next
    case (PDict sub)
    have "etree_to_dict (dict_to_xml (fst kv) sub) = [(fst kv, PDict sub)]"
      using "1.IH" [of kv "fst kv" "snd kv" sub] that vals [OF that] PDict
      by (cases kv) simp
    then show ?thesis
      using PDict
      by (simp add: encode_item_def decoded_def entry_def etag_dict_to_xml
               del: dict_to_xml.simps)
  qed (use vals [OF that] in simp_all)
  have tags: "map etag (map encode_item d) = map fst d"
    by (simp add: etag_encode_item comp_def)
  have "foldl add_child [] (map encode_item d) =
        [] @ map (\<lambda>c. (etag c, decoded c)) (map encode_item d)"
    by (rule foldl_add_child_fresh) (simp_all only: tags dist, simp)
  also have "\<dots> = d"
    using dec by (simp add: etag_encode_item comp_def map_idI)
  finally have "foldl add_child [] (map encode_item d) = d" .
  then show ?case
    using ne by (simp only: dict_to_xml_unfold etree_to_dict_Element) simp
qed

text \<open>The default fields of the \<^verbatim>\<open>sms\<close> command come back as they were.\<close>

theorem roundtrip_nonempty_nodes_witness:
  "roundtrips (PDict sms_defaults)
   \<and> etree_to_dict (dict_to_xml ''request'' sms_defaults) = [(''request'', PDict sms_defaults)]"
proof -
  have h: "roundtrips (PDict sms_defaults)" by code_simp
  from roundtrip_nonempty_nodes [OF h, of "''request''"] h show ?thesis by simp
qed

text \<open>
  The claim as stated fails. A leaf without text decodes to \<^verbatim>\<open>None\<close>, not to the
  empty string; and the dict \<^verbatim>\<open>{b: {}}\<close>, built from nodes only, comes back as
  \<^verbatim>\<open>{a: {b: None}}\<close>, which is neither the value nor the value under its tag.
\<close>

theorem empty_leaf_decodes_to_none:
  "etree_to_dict (Element ''b'' None []) = [(''b'', PNone)]
   \<and> etree_to_dict (Element ''b'' None []) \<noteq> [(''b'', PStr [])]
   \<and> etree_to_dict (dict_to_xml ''a'' [(''b'', PDict [])]) = [(''a'', PDict [(''b'', PNone)])]
   \<and> etree_to_dict (dict_to_xml ''a'' [(''b'', PDict [])]) \<noteq> [(''a'', PDict [(''b'', PDict [])])]
   \<and> etree_to_dict (dict_to_xml ''a'' [(''b'', PDict [])]) \<noteq> [(''b'', PDict [])]"
  by code_simp

section \<open>C3: the order of the fields\<close>

text \<open>
  Claim C3. For every command and every keyword arguments, the order in which the command's
  default fields were inserted is kept while the keyword arguments are applied and while the
  request is encoded: the children of the encoded \<^verbatim>\<open>request\<close> element are the
  default fields in their order, followed by \<^verbatim>\<open>token\<close> when the defaults have no
  such field. The order does not depend on the keyword arguments, so giving an existing key
  a new value does not move it.
\<close>

theorem make_request_keeps_field_order:
  assumes "map_of (api_dict api) name = Some (PDict cmd)"
    and "map_of cmd ''request'' = Some (PDict defaults)"
    and "make_request api n name kwargs = (Inr (Some req), n')"
    and "data req = Some tree"
  shows "map etag (getchildren tree) =
         map fst defaults @ (if contains defaults ''token'' then [] else [''token''])"
proof -
  from make_request_tree [OF assms] obtain token where
    tree: "tree = dict_to_xml ''request''
                    (apply_kwargs (setitem defaults ''token'' token) kwargs)"
    by blast
  have "map etag (getchildren tree) = map fst (setitem defaults ''token'' token)"
    by (simp only: tree dict_to_xml_tags map_fst_apply_kwargs)
  also have "\<dots> = map fst defaults @ (if contains defaults ''token'' then [] else [''token''])"
    by (simp add: map_fst_setitem contains_def)
  finally show ?thesis .
qed

text \<open>
  The request that \<^verbatim>\<open>send_sms('hi', '0412345678')\<close> builds from the example catalog:
  four of the five default fields get a new value and every field stays where it was.
\<close>

theorem make_request_keeps_field_order_witness:
  "map_of (api_dict example_api) ''sms'' = Some (PDict sms_cmd)
   \<and> map_of sms_cmd ''request'' = Some (PDict sms_defaults)
   \<and> make_request example_api example_net ''sms'' sms_kwargs =
       (Inr (Some (sms_request (sms_tree ''T0K3N''))), net_after_token)
   \<and> data (sms_request (sms_tree ''T0K3N'')) = Some (sms_tree ''T0K3N'')
   \<and> map etag (getchildren (sms_tree ''T0K3N'')) =
       [''Index'', ''Phones'', ''Content'', ''Length'', ''Date'', ''token'']"
proof -
  have h1: "map_of (api_dict example_api) ''sms'' = Some (PDict sms_cmd)" by code_simp
  have h2: "map_of sms_cmd ''request'' = Some (PDict sms_defaults)" by code_simp
  have h3: "make_request example_api example_net ''sms'' sms_kwargs =
            (Inr (Some (sms_request (sms_tree ''T0K3N''))), net_after_token)" by code_simp
  have h4: "data (sms_request (sms_tree ''T0K3N'')) = Some (sms_tree ''T0K3N'')" by code_simp
  have r: "map fst sms_defaults @ (if contains sms_defaults ''token'' then [] else [''token''])
           = [''Index'', ''Phones'', ''Content'', ''Length'', ''Date'', ''token'']" by code_simp
  from make_request_keeps_field_order [OF h1 h2 h3 h4] h1 h2 h3 h4 r show ?thesis
    by (simp only: simp_thms)
qed

section \<open>C4: keyword arguments that name no field\<close>

text \<open>
  Claim C4, as the code has it. A keyword argument is applied only when its key is in the
  request at that moment, and the request then holds the command's default fields and
  \<^verbatim>\<open>token\<close>. So for every key that is neither a default field nor
  \<^verbatim>\<open>'token'\<close> the argument is skipped: the call gives the same result as the call
  without it, and the encoded request has no child of that name.
\<close>

theorem unknown_override_ignored:
  assumes "map_of (api_dict api) name = Some (PDict cmd)"
    and "map_of cmd ''request'' = Some (PDict defaults)"
    and "\<not> contains defaults key" and "key \<noteq> ''token''"
  shows "make_request api n name (kw1 @ (key, val) # kw2) = make_request api n name (kw1 @ kw2)
       \<and> (\<forall>req n' tree. make_request api n name (kw1 @ (key, val) # kw2) = (Inr (Some req), n')
              \<and> data req = Some tree
            \<longrightarrow> key \<notin> set (map etag (getchildren tree)))"
proof -
  have c: "contains (api_dict api) name" and e: "entry (api_dict api) name = PDict cmd"
    using assms(1) by (simp_all add: contains_map_of entry_map_of)
  have skip: "apply_kwargs (setitem defaults ''token'' t) (kw1 @ (key, val) # kw2) =
              apply_kwargs (setitem defaults ''token'' t) (kw1 @ kw2)" for t
    by (rule apply_kwargs_skip) (simp add: contains_setitem assms(3,4))
  have p: "post_request api n (PDict cmd) full_url (kw1 @ (key, val) # kw2) =
           post_request api n (PDict cmd) full_url (kw1 @ kw2)" for full_url
    by (simp add: post_request_def bind_net_def assms(2) skip del: get.simps
             split: sum.splits prod.splits)
  have eq: "make_request api n name (kw1 @ (key, val) # kw2) = make_request api n name (kw1 @ kw2)"
    by (simp add: make_request_def p e cong: if_cong)
  have "key \<notin> set (map etag (getchildren tree))"
    if "make_request api n name (kw1 @ (key, val) # kw2) = (Inr (Some req), n')"
      and "data req = Some tree" for req n' tree
  proof -
    from make_request_tree [OF assms(1,2) that] obtain token where
      "tree = dict_to_xml ''request''
                (apply_kwargs (setitem defaults ''token'' token) (kw1 @ (key, val) # kw2))"
      by blast
    then have "map etag (getchildren tree) = map fst (setitem defaults ''token'' token)"
      by (simp only: dict_to_xml_tags map_fst_apply_kwargs)
    with assms(3,4) show ?thesis
      by (auto simp: map_fst_setitem contains_def split: if_splits)
  qed
  with eq show ?thesis by blast
qed

text \<open>
  \<^verbatim>\<open>Priority\<close> is not a field of the \<^verbatim>\<open>sms\<close> command: passing it changes
  nothing.
\<close>

theorem unknown_override_ignored_witness:
  "map_of (api_dict example_api) ''sms'' = Some (PDict sms_cmd)
   \<and> map_of sms_cmd ''request'' = Some (PDict sms_defaults)
   \<and> \<not> contains sms_defaults ''Priority'' \<and> ''Priority'' \<noteq> ''token''
   \<and> make_request example_api example_net ''sms'' (sms_kwargs @ (''Priority'', PInt 1) # []) =
       make_request example_api example_net ''sms'' (sms_kwargs @ [])
   \<and> make_request example_api example_net ''sms'' (sms_kwargs @ (''Priority'', PInt 1) # []) =
       (Inr (Some (sms_request (sms_tree ''T0K3N''))), net_after_token)
   \<and> ''Priority'' \<notin> set (map etag (getchildren (sms_tree ''T0K3N'')))"
proof -
  have h1: "map_of (api_dict example_api) ''sms'' = Some (PDict sms_cmd)" by code_simp
  have h2: "map_of sms_cmd ''request'' = Some (PDict sms_defaults)" by code_simp
  have h3: "\<not> contains sms_defaults ''Priority''" by code_simp
  have h4: "''Priority'' \<noteq> ''token''" by simp
  have m: "make_request example_api example_net ''sms'' (sms_kwargs @ (''Priority'', PInt 1) # []) =
           (Inr (Some (sms_request (sms_tree ''T0K3N''))), net_after_token)" by code_simp
  have d: "data (sms_request (sms_tree ''T0K3N'')) = Some (sms_tree ''T0K3N'')" by code_simp
  from unknown_override_ignored [OF h1 h2 h3 h4, of example_net sms_kwargs "PInt 1" "[]"]
    h1 h2 h3 h4 m d show ?thesis by blast
qed

text \<open>
  The claim as stated fails for the key \<^verbatim>\<open>token\<close>. It is not a default field of
  the \<^verbatim>\<open>sms\<close> command, yet the keyword argument is applied: the request carries
  the caller's value in place of the token the device issued.
\<close>

theorem token_override_applied:
  "\<not> contains sms_defaults ''token''
   \<and> make_request example_api example_net ''sms'' [] =
       (Inr (Some (sms_request (default_tree ''T0K3N''))), net_after_token)
   \<and> make_request example_api example_net ''sms'' [(''token'', PStr ''forged'')] =
       (Inr (Some (sms_request (default_tree ''forged''))), net_after_token)
   \<and> default_tree ''forged'' \<noteq> default_tree ''T0K3N''"
  by code_simp

section \<open>C5: the token of a POST\<close>

text \<open>
  Claim C5, as the code has it. Every call of \<^verbatim>\<open>make_request\<close> for a POST command
  sends exactly one request for the token, the GET of \<^verbatim>\<open>/html/js/vendor.js\<close>, and
  nothing else; the client keeps no token between calls. The token is stored under
  \<^verbatim>\<open>'token'\<close> before the keyword arguments are applied. When the defaults have no
  field \<^verbatim>\<open>token\<close> and no keyword argument is named \<^verbatim>\<open>token\<close>, the last
  child of the encoded request is the \<^verbatim>\<open>token\<close> element with the fetched token as
  its text.
\<close>

theorem post_fetches_token_once:
  assumes "map_of (api_dict api) name = Some (PDict cmd)"
    and "map_of cmd ''url'' = Some (PStr u)"
    and "map_of cmd ''method'' = Some (PStr ''post'')"
    and "map_of cmd ''request'' = Some (PDict defaults)"
    and "common_headers api = PDict h"
  shows "sent (snd (make_request api n name kwargs)) =
           sent n @ [\<lparr>req_fun = requests_get, url = base_url api @ ''/html/js/vendor.js'',
                      headers = None, data = None\<rparr>]
       \<and> (\<forall>r rs token. replies n = r # rs \<and> status_code r = 200
              \<and> re_search (resp_text r) = Some token
              \<and> \<not> contains defaults ''token'' \<and> \<not> contains kwargs ''token''
            \<longrightarrow> (\<exists>req tree. fst (make_request api n name kwargs) = Inr (Some req)
                   \<and> data req = Some tree \<and> getchildren tree \<noteq> []
                   \<and> last (getchildren tree) = Element ''token'' (Some token) []))"
proof -
  have c: "contains (api_dict api) name" and e: "entry (api_dict api) name = PDict cmd"
    using assms(1) by (simp_all add: contains_map_of entry_map_of)
  have m: "make_request api n name kwargs =
           post_request api n (PDict cmd) (base_url api @ u) kwargs"
    by (simp add: make_request_def c e bind_net_def assms(2,3))
  show ?thesis
    unfolding m
    using post_request_sent [OF assms(4,5)] post_request_token_last [OF assms(4,5)]
          get_token_success
    by blast
qed

text \<open>Sending a message with the example catalog: one token request, and the token last.\<close>

theorem post_fetches_token_once_witness:
  "map_of (api_dict example_api) ''sms'' = Some (PDict sms_cmd)
   \<and> map_of sms_cmd ''url'' = Some (PStr ''/api/sms/send-sms'')
   \<and> map_of sms_cmd ''method'' = Some (PStr ''post'')
   \<and> map_of sms_cmd ''request'' = Some (PDict sms_defaults)
   \<and> common_headers example_api = PDict [(''Host'', PStr ''192.168.9.1'')]
   \<and> replies example_net = vendor_reply # [inbox_reply 200 inbox_one]
   \<and> status_code vendor_reply = 200 \<and> re_search (resp_text vendor_reply) = Some ''T0K3N''
   \<and> \<not> contains sms_defaults ''token'' \<and> \<not> contains sms_kwargs ''token''
   \<and> sent (snd (make_request example_api example_net ''sms'' sms_kwargs)) =
       sent example_net @ [vendor_call]
   \<and> (\<exists>req tree. fst (make_request example_api example_net ''sms'' sms_kwargs) = Inr (Some req)
         \<and> data req = Some tree \<and> getchildren tree \<noteq> []
         \<and> last (getchildren tree) = Element ''token'' (Some ''T0K3N'') [])"
proof -
  have h1: "map_of (api_dict example_api) ''sms'' = Some (PDict sms_cmd)" by code_simp
  have h2: "map_of sms_cmd ''url'' = Some (PStr ''/api/sms/send-sms'')" by code_simp
  have h3: "map_of sms_cmd ''method'' = Some (PStr ''post'')" by code_simp
  have h4: "map_of sms_cmd ''request'' = Some (PDict sms_defaults)" by code_simp
  have h5: "common_headers example_api = PDict [(''Host'', PStr ''192.168.9.1'')]" by code_simp
  have g1: "replies example_net = vendor_reply # [inbox_reply 200 inbox_one]" by code_simp
  have g2: "status_code vendor_reply = 200" by code_simp
  have g3: "re_search (resp_text vendor_reply) = Some ''T0K3N''" by code_simp
  have g4: "\<not> contains sms_defaults ''token''" by code_simp
  have g5: "\<not> contains sms_kwargs ''token''" by code_simp
  have b: "base_url example_api @ ''/html/js/vendor.js'' = ''http://192.168.9.1/html/js/vendor.js''"
    by code_simp
  from post_fetches_token_once [OF h1 h2 h3 h4 h5, of example_net sms_kwargs]
    h1 h2 h3 h4 h5 g1 g2 g3 g4 g5 show ?thesis
    unfolding vendor_call_def b by blast
qed

text \<open>
  The claim as stated fails: the token is stored before the keyword arguments are applied,
  not after. The device issues \<open>T0K3N\<close>, and with a keyword argument
  \<^verbatim>\<open>token\<close> the last child of the body carries the caller's value instead.
\<close>

theorem token_stored_before_overrides:
  "fst (get_token example_api example_net) = Inr ''T0K3N''
   \<and> fst (make_request example_api example_net ''sms'' [(''token'', PStr ''forged'')]) =
       Inr (Some (sms_request (default_tree ''forged'')))
   \<and> last (getchildren (default_tree ''forged'')) = Element ''token'' (Some ''forged'') []
   \<and> last (getchildren (default_tree ''forged'')) \<noteq> Element ''token'' (Some ''T0K3N'') []"
  by code_simp

section \<open>C6: a list as the value of a field\<close>

text \<open>
  Claim C6, as the code has it. \<^verbatim>\<open>dict_to_xml\<close> has no case for a list: the value
  of a field is either a dict, encoded recursively, or anything else, encoded through
  \<^verbatim>\<open>str\<close>. A field whose value is a list therefore gives exactly one leaf element,
  named by the key, whose text is \<^verbatim>\<open>str\<close> of the whole list; the fields before and
  after it are encoded as they would be without it.
\<close>

theorem dict_to_xml_list_is_one_leaf:
  "getchildren (dict_to_xml tag (d1 @ (key, PList items) # d2)) =
   getchildren (dict_to_xml tag d1) @
   Element key (Some (str (PList items))) [] # getchildren (dict_to_xml tag d2)"
  by simp

text \<open>
  The claim as stated fails: two phone numbers under one key give one
  \<^verbatim>\<open>Phone\<close> element whose text is the printed list, not two elements.
\<close>

theorem list_value_not_repeated:
  "getchildren (dict_to_xml ''Phones''
     [(''Phone'', PList [PStr ''0412345678'', PStr ''0498765432''])]) =
     [Element ''Phone'' (Some ''['0412345678', '0498765432']'') []]
   \<and> getchildren (dict_to_xml ''Phones''
        [(''Phone'', PList [PStr ''0412345678'', PStr ''0498765432''])]) \<noteq>
       [Element ''Phone'' (Some ''0412345678'') [], Element ''Phone'' (Some ''0498765432'') []]"
  by code_simp

section \<open>C7: a method that is neither GET nor POST\<close>

text \<open>
  Claim C7, as the code has it. \<^verbatim>\<open>make_request\<close> tests the method for
  \<^verbatim>\<open>'post'\<close> and for \<^verbatim>\<open>'get'\<close> and has no other branch. For a command
  with a \<^verbatim>\<open>url\<close> and any other method it raises nothing and returns
  \<^verbatim>\<open>None\<close>, sending nothing; \<^verbatim>\<open>run_command\<close> then fails with
  \<^verbatim>\<open>AttributeError\<close> when it calls \<^verbatim>\<open>run\<close> on that result.
\<close>

theorem unknown_method_returns_none:
  assumes "map_of (api_dict api) name = Some (PDict cmd)"
    and "map_of cmd ''url'' = Some (PStr u)"
    and "map_of cmd ''method'' = Some method"
    and "method \<noteq> PStr ''post''" and "method \<noteq> PStr ''get''"
  shows "make_request api n name kwargs = (Inr None, n)
       \<and> run_command api n name kwargs = (Inl AttributeError, n)"
proof -
  have c: "contains (api_dict api) name" and e: "entry (api_dict api) name = PDict cmd"
    using assms(1) by (simp_all add: contains_map_of entry_map_of)
  have m: "make_request api n name kwargs = (Inr None, n)"
    by (simp add: make_request_def c e bind_net_def assms(2-5))
  then show ?thesis by (simp add: run_command_def)
qed

text \<open>The \<^verbatim>\<open>reset\<close> command of the example catalog declares the method \<^verbatim>\<open>put\<close>.\<close>

theorem unknown_method_returns_none_witness:
  "map_of (api_dict example_api) ''reset'' = Some (PDict reset_cmd)
   \<and> map_of reset_cmd ''url'' = Some (PStr ''/api/device/control'')
   \<and> map_of reset_cmd ''method'' = Some (PStr ''put'')
   \<and> PStr ''put'' \<noteq> PStr ''post'' \<and> PStr ''put'' \<noteq> PStr ''get''
   \<and> make_request example_api example_net ''reset'' [] = (Inr None, example_net)
   \<and> run_command example_api example_net ''reset'' [] = (Inl AttributeError, example_net)"
proof -
  have h1: "map_of (api_dict example_api) ''reset'' = Some (PDict reset_cmd)" by code_simp
  have h2: "map_of reset_cmd ''url'' = Some (PStr ''/api/device/control'')" by code_simp
  have h3: "map_of reset_cmd ''method'' = Some (PStr ''put'')" by code_simp
  have h4: "PStr ''put'' \<noteq> PStr ''post''" by simp
  have h5: "PStr ''put'' \<noteq> PStr ''get''" by simp
  from unknown_method_returns_none [OF h1 h2 h3 h4 h5, of example_net "[]"]
    h1 h2 h3 h4 h5 show ?thesis by blast
qed

text \<open>
  The claim as stated fails: for the method \<^verbatim>\<open>put\<close> the builder does not fail, it
  returns no request.
\<close>

theorem put_method_does_not_raise:
  "entry (api_dict example_api) ''reset'' = PDict reset_cmd
   \<and> getitem (PDict reset_cmd) ''method'' = Inr (PStr ''put'')
   \<and> fst (make_request example_api failing_net ''reset'' [(''Index'', PInt 1)]) = Inr None"
  by code_simp

section \<open>C8: a response whose status is not success\<close>

text \<open>
  Claim C8, as the code has it. \<^verbatim>\<open>run_command\<close> never looks at the status: for
  every response whose body parses it returns the pair of the status code and the decoded
  body, and raises nothing. \<^verbatim>\<open>get_inbox\<close> is where a status other than 200 fails,
  with \<^verbatim>\<open>HTTPStatus\<close>; the exception is raised bare and carries neither the status
  nor the body.
\<close>

theorem run_command_returns_pair:
  assumes "make_request api n name kwargs = (Inr (Some req), n1)"
    and "replies n1 = resp # rest" and "resp_tree resp = Some t"
  shows "fst (run_command api n name kwargs) = Inr (status_code resp, PDict (etree_to_dict t))
       \<and> (name = ''sms-list'' \<and> kwargs = [] \<and> status_code resp \<noteq> 200
            \<longrightarrow> fst (get_inbox api n) = Inl HTTPStatus)"
proof -
  note rc = run_command_ok [OF assms]
  have "fst (get_inbox api n) = Inl HTTPStatus"
    if "name = ''sms-list''" "kwargs = []" "status_code resp \<noteq> 200"
    using rc that by (simp add: get_inbox_def)
  then show ?thesis by (simp add: rc)
qed

text \<open>The device answers the inbox request with status 500 and a body.\<close>

theorem run_command_returns_pair_witness:
  "make_request example_api failing_net ''sms-list'' [] =
     (Inr (Some sms_list_request), \<lparr>replies = [inbox_reply 500 inbox_one], sent = [vendor_call]\<rparr>)
   \<and> replies \<lparr>replies = [inbox_reply 500 inbox_one], sent = [vendor_call]\<rparr> =
       inbox_reply 500 inbox_one # []
   \<and> resp_tree (inbox_reply 500 inbox_one) = Some (Element ''response'' None inbox_one)
   \<and> status_code (inbox_reply 500 inbox_one) = 500
   \<and> fst (run_command example_api failing_net ''sms-list'' []) =
       Inr (500, PDict (etree_to_dict (Element ''response'' None inbox_one)))
   \<and> fst (get_inbox example_api failing_net) = Inl HTTPStatus"
proof -
  let ?n1 = "\<lparr>replies = [inbox_reply 500 inbox_one], sent = [vendor_call]\<rparr>"
  have h1: "make_request example_api failing_net ''sms-list'' [] =
            (Inr (Some sms_list_request), ?n1)" by code_simp
  have h2: "replies ?n1 = inbox_reply 500 inbox_one # []" by simp
  have h3: "resp_tree (inbox_reply 500 inbox_one) = Some (Element ''response'' None inbox_one)"
    by (simp add: inbox_reply_def reply_def)
  have s: "status_code (inbox_reply 500 inbox_one) = 500"
    by (simp add: inbox_reply_def reply_def)
  from run_command_returns_pair [OF h1 h2 h3] h1 h2 h3 s show ?thesis by simp
qed

text \<open>
  The claim as stated fails: at status 500 \<^verbatim>\<open>run_command\<close> does not fail, it
  returns the status with the decoded body; and the \<^verbatim>\<open>HTTPStatus\<close> that
  \<^verbatim>\<open>get_inbox\<close> raises for the same response has nothing in it.
\<close>

theorem status_500_is_returned:
  "fst (run_command example_api failing_net ''sms-list'' []) =
     Inr (500, PDict [(''response'', PDict
        [(''Count'', PStr ''1''),
         (''Messages'', PDict [(''Message'', PDict
            [(''Index'', PStr ''40007''), (''Content'', PStr ''Test''), (''Sca'', PNone)])])])])
   \<and> get_inbox example_api failing_net =
       (Inl HTTPStatus,
        \<lparr>replies = [], sent = [vendor_call, sms_list_request]\<rparr>)"
  by code_simp

section \<open>C9: the inbox as a sequence\<close>

text \<open>
  Claim C9, as the code has it. For every response to \<^verbatim>\<open>sms-list\<close> with status
  200 whose root is a \<^verbatim>\<open>response\<close> element with children,
  \<^verbatim>\<open>get_inbox\<close> returns a list: the empty list when \<^verbatim>\<open>Messages\<close>
  is absent or is not a node (a leaf, or repeated); the one decoded message, put into a
  list, when \<^verbatim>\<open>Messages\<close> has exactly one \<^verbatim>\<open>Message\<close> child; all
  decoded messages in document order when it has several.
\<close>

theorem get_inbox_sequence:
  assumes "run_command api n ''sms-list'' [] =
           (Inr (200, PDict (etree_to_dict (Element ''response'' txt cs))), n')"
    and "cs \<noteq> []"
  shows "((\<forall>m. named ''Messages'' cs = [m] \<longrightarrow> getchildren m = [])
            \<longrightarrow> get_inbox api n = (Inr [], n'))
       \<and> (\<forall>m x. named ''Messages'' cs = [m] \<and> named ''Message'' (getchildren m) = [x]
            \<longrightarrow> get_inbox api n = (Inr [decoded x], n'))
       \<and> (\<forall>m xs. named ''Messages'' cs = [m] \<and> named ''Message'' (getchildren m) = xs
              \<and> 2 \<le> length xs
            \<longrightarrow> get_inbox api n = (Inr (map decoded xs), n'))"
proof (intro conjI allI impI)
  assume a: "\<forall>m. named ''Messages'' cs = [m] \<longrightarrow> getchildren m = []"
  show "get_inbox api n = (Inr [], n')"
  proof (cases "named ''Messages'' cs")
    case Nil
    then show ?thesis by (simp add: get_inbox_result [OF assms] group_value_def)
  next
    case (Cons m ms)
    show ?thesis
    proof (cases ms)
      case Nil
      with Cons a have "getchildren m = []" by simp
      then have "decoded m = text_value (etext m)"
        by (cases m) (simp add: decoded_Element)
      with Cons Nil show ?thesis
        by (simp add: get_inbox_result [OF assms] group_value_def text_value_def
                 split: option.splits)
    next
      case (Cons m2 ms2)
      with \<open>named ''Messages'' cs = m # ms\<close> show ?thesis
        by (simp add: get_inbox_result [OF assms] group_value_def)
    qed
  qed
next
  fix m x
  assume a: "named ''Messages'' cs = [m] \<and> named ''Message'' (getchildren m) = [x]"
  then have ne: "getchildren m \<noteq> []" by (auto simp: named_def)
  then have d: "decoded m = PDict (foldl add_child [] (getchildren m))"
    by (cases m) (simp add: decoded_Element)
  have "as_list (decoded x) = [decoded x]"
    by (cases "decoded x") (auto simp: as_list_def decoded_not_list)
  with a d show "get_inbox api n = (Inr [decoded x], n')"
    by (simp add: get_inbox_result [OF assms] group_value_def children_lookup)
next
  fix m xs
  assume a: "named ''Messages'' cs = [m] \<and> named ''Message'' (getchildren m) = xs
             \<and> 2 \<le> length xs"
  then have ne: "getchildren m \<noteq> []" by (auto simp: named_def)
  then have d: "decoded m = PDict (foldl add_child [] (getchildren m))"
    by (cases m) (simp add: decoded_Element)
  from a obtain y z zs where xs: "xs = y # z # zs"
    by (cases xs; cases "tl xs") auto
  with a d show "get_inbox api n = (Inr (map decoded xs), n')"
    by (simp add: get_inbox_result [OF assms] group_value_def children_lookup as_list_def)
qed

text \<open>An inbox with no message, with one and with two.\<close>

theorem get_inbox_sequence_witness:
  "run_command example_api (device 200 inbox_none) ''sms-list'' [] =
     (Inr (200, PDict (etree_to_dict (Element ''response'' None inbox_none))), net_done)
   \<and> inbox_none \<noteq> []
   \<and> named ''Messages'' inbox_none = [Element ''Messages'' None []]
   \<and> get_inbox example_api (device 200 inbox_none) = (Inr [], net_done)
   \<and> run_command example_api (device 200 inbox_one) ''sms-list'' [] =
     (Inr (200, PDict (etree_to_dict (Element ''response'' None inbox_one))), net_done)
   \<and> inbox_one \<noteq> []
   \<and> named ''Messages'' inbox_one = [Element ''Messages'' None [message ''40007'' ''Test'']]
   \<and> get_inbox example_api (device 200 inbox_one) =
       (Inr [PDict [(''Index'', PStr ''40007''), (''Content'', PStr ''Test''), (''Sca'', PNone)]],
        net_done)
   \<and> run_command example_api (device 200 inbox_two) ''sms-list'' [] =
     (Inr (200, PDict (etree_to_dict (Element ''response'' None inbox_two))), net_done)
   \<and> inbox_two \<noteq> []
   \<and> named ''Messages'' inbox_two =
       [Element ''Messages'' None [message ''40007'' ''Test'', message ''40008'' ''Again'']]
   \<and> get_inbox example_api (device 200 inbox_two) =
       (Inr [PDict [(''Index'', PStr ''40007''), (''Content'', PStr ''Test''), (''Sca'', PNone)],
             PDict [(''Index'', PStr ''40008''), (''Content'', PStr ''Again''), (''Sca'', PNone)]],
        net_done)"
proof -
  let ?m1 = "message ''40007'' ''Test''" and ?m2 = "message ''40008'' ''Again''"
  have r0: "run_command example_api (device 200 inbox_none) ''sms-list'' [] =
     (Inr (200, PDict (etree_to_dict (Element ''response'' None inbox_none))), net_done)"
    by code_simp
  have r1: "run_command example_api (device 200 inbox_one) ''sms-list'' [] =
     (Inr (200, PDict (etree_to_dict (Element ''response'' None inbox_one))), net_done)"
    by code_simp
  have r2: "run_command example_api (device 200 inbox_two) ''sms-list'' [] =
     (Inr (200, PDict (etree_to_dict (Element ''response'' None inbox_two))), net_done)"
    by code_simp
  have n0: "inbox_none \<noteq> []" and n1: "inbox_one \<noteq> []" and n2: "inbox_two \<noteq> []"
    by (simp_all add: inbox_none_def inbox_one_def inbox_two_def)
  have m0: "named ''Messages'' inbox_none = [Element ''Messages'' None []]" by code_simp
  have m1: "named ''Messages'' inbox_one = [Element ''Messages'' None [?m1]]" by code_simp
  have m2: "named ''Messages'' inbox_two = [Element ''Messages'' None [?m1, ?m2]]" by code_simp
  have c1: "named ''Message'' (getchildren (Element ''Messages'' None [?m1])) = [?m1]"
    by code_simp
  have c2: "named ''Message'' (getchildren (Element ''Messages'' None [?m1, ?m2])) = [?m1, ?m2]"
    by code_simp
  have d1: "decoded ?m1 =
     PDict [(''Index'', PStr ''40007''), (''Content'', PStr ''Test''), (''Sca'', PNone)]"
    by code_simp
  have d2: "decoded ?m2 =
     PDict [(''Index'', PStr ''40008''), (''Content'', PStr ''Again''), (''Sca'', PNone)]"
    by code_simp
  have g0: "get_inbox example_api (device 200 inbox_none) = (Inr [], net_done)"
    using get_inbox_sequence [OF r0 n0] by (simp add: m0)
  have g1: "get_inbox example_api (device 200 inbox_one) = (Inr [decoded ?m1], net_done)"
    using get_inbox_sequence [OF r1 n1] m1 c1 by blast
  have g2: "get_inbox example_api (device 200 inbox_two) =
            (Inr (map decoded [?m1, ?m2]), net_done)"
    using get_inbox_sequence [OF r2 n2] m2 c2 by simp
  from r0 r1 r2 n0 n1 n2 m0 m1 m2 g0 g1 g2 show ?thesis
    by (simp only: d1 d2 list.map simp_thms)
qed

text \<open>
  The claim as stated, for every response with status 200, fails: \<^verbatim>\<open>get_inbox\<close>
  subscripts the decoded body with \<^verbatim>\<open>'response'\<close> and calls
  \<^verbatim>\<open>get\<close> on what it finds. When the device reports an error under status 200
  the root is \<^verbatim>\<open>error\<close> and the call ends in \<^verbatim>\<open>KeyError\<close>; when
  the \<^verbatim>\<open>response\<close> element is empty it ends in
  \<^verbatim>\<open>AttributeError\<close>. In both \<^verbatim>\<open>Messages\<close> is absent and no list
  is returned.
\<close>

theorem get_inbox_without_response_node:
  "run_command example_api (device_replying (reply 200 error_body)) ''sms-list'' [] =
     (Inr (200, PDict [(''error'', PDict [(''code'', PStr ''125003''), (''message'', PNone)])]),
      net_done)
   \<and> get_inbox example_api (device_replying (reply 200 error_body)) = (Inl KeyError, net_done)
   \<and> run_command example_api (device_replying (reply 200 empty_response)) ''sms-list'' [] =
     (Inr (200, PDict [(''response'', PNone)]), net_done)
   \<and> get_inbox example_api (device_replying (reply 200 empty_response)) =
     (Inl AttributeError, net_done)"
  by code_simp

section \<open>C10: the catalog keeps the common section\<close>

text \<open>
  Claim C10. For every configuration that \<^verbatim>\<open>__init__\<close> loads, the catalog
  holds every top-level key except \<^verbatim>\<open>'common-headers'\<close>, in the order of the
  configuration. Loading succeeds only when the section \<^verbatim>\<open>'common'\<close> is there,
  so \<^verbatim>\<open>list_requests\<close> always lists \<^verbatim>\<open>'common'\<close>, and
  \<^verbatim>\<open>make_request\<close> called with that name does not raise
  \<^verbatim>\<open>APIError\<close>, the exception for an unknown command.
\<close>

theorem catalog_keeps_common:
  assumes "init cfg = Inr api"
  shows "(\<exists>items. cfg = PDict items
            \<and> list_requests api = filter (\<lambda>k. k \<noteq> ''common-headers'') (map fst items))
       \<and> ''common'' \<in> set (list_requests api)
       \<and> fst (make_request api n ''common'' kwargs) \<noteq> Inl APIError"
proof -
  from assms obtain items where cfg: "cfg = PDict items"
    by (cases cfg) (auto simp: init_def bind_err_def)
  from assms cfg obtain common where common: "map_of items ''common'' = Some common"
    by (auto simp: init_def bind_err_def split: option.splits)
  from assms have api: "api_dict api = filter (\<lambda>kv. \<not> fst kv = ''common-headers'') items"
    by (auto simp: init_def bind_err_def cfg split: sum.splits)
  have keys: "list_requests api = filter (\<lambda>k. k \<noteq> ''common-headers'') (map fst items)"
    by (simp add: list_requests_def api filter_map comp_def)
  from common have "''common'' \<in> set (map fst items)"
    using contains_map_of [of items] by (simp add: contains_def)
  then have mem: "''common'' \<in> set (list_requests api)"
    by (simp add: keys)
  then have "contains (api_dict api) ''common''"
    by (simp add: contains_def list_requests_def)
  from make_request_known_name [OF this] cfg keys mem show ?thesis by blast
qed

theorem catalog_keeps_common_witness:
  "init example_cfg = Inr example_api
   \<and> list_requests example_api = [''common'', ''sms'', ''sms-list'', ''status'', ''reset'']
   \<and> ''common'' \<in> set (list_requests example_api)
   \<and> fst (make_request example_api example_net ''common'' []) \<noteq> Inl APIError
   \<and> fst (make_request example_api example_net ''common'' []) = Inl KeyError"
proof -
  have h: "init example_cfg = Inr example_api" by code_simp
  have l: "list_requests example_api = [''common'', ''sms'', ''sms-list'', ''status'', ''reset'']"
    by code_simp
  have k: "fst (make_request example_api example_net ''common'' []) = Inl KeyError"
    by code_simp
  from catalog_keeps_common [OF h, of example_net "[]"] h l k show ?thesis by simp
qed

end
